theory Spec2Isabelle
  imports Main "HOL-Library.Char_ord" "HOL-Library.List_Lexorder"
begin

section \<open>TaskFlow server: tables, sockets and errors\<close>

text \<open>
  The unified server keeps its rows in SQLite tables. A table is modelled as the list of its
  rows in insertion (rowid) order. Only the columns the task routes read or write are kept
  for boards and columns; a task row keeps every column of the \<^verbatim>\<open>tasks\<close> table.
  \<^verbatim>\<open>position\<close> is an INTEGER column and is modelled as an unbounded \<open>int\<close>: requests carry
  integer positions far from the 64-bit limits, inside which the arithmetic of SQL statements
  is exact. Where a handler computes a position in JavaScript, the model rounds as a double
  does (\<open>to_double\<close> below). The \<^verbatim>\<open>labels\<close> column holds the JSON text of
  the label array, which \<^verbatim>\<open>snakeToCamel\<close> parses back; the model keeps the array itself.
  \<^verbatim>\<open>snakeToCamel\<close> otherwise only renames the keys of a row, and \<^verbatim>\<open>db.save()\<close> writes the
  database file after each change and is taken to succeed.
\<close>

record board =
  b_id :: string
  b_owner_id :: string

record col =
  c_id :: string
  c_board_id :: string
  c_position :: int

record task =
  t_id :: string
  t_column_id :: string
  t_board_id :: string
  t_title :: string
  t_description :: string
  t_assignee_id :: "string option"
  t_priority :: string
  t_labels :: "string list"
  t_position :: int
  t_due_date :: "string option"
  t_created_at :: string
  t_updated_at :: string

record db =
  boards :: "board list"
  columns :: "col list"
  tasks :: "task list"

text \<open>
  A WebSocket object: \<open>userId\<close> is the field the connection handler sets, \<open>readyState\<close> is
  the library's state (1 is OPEN), and \<open>send_throws\<close> says whether \<^verbatim>\<open>ws.send\<close> raises on this
  socket (the behaviour of the transport, which the server does not control).
\<close>

record socket =
  sock_id :: nat
  userId :: string
  readyState :: nat
  send_throws :: bool

text \<open>The payloads the task routes broadcast, and the envelope \<^verbatim>\<open>{type, payload, timestamp}\<close>.\<close>

datatype payload = TaskPayload "task option" | DeletedPayload string string

record message =
  m_type :: string
  m_payload :: payload
  m_timestamp :: string

text \<open>
  The server state: the database, the map \<^verbatim>\<open>clients\<close> from user id to the set of the user's
  sockets (both in insertion order, as a JavaScript Map and Set iterate), and the frames written
  to sockets so far.
\<close>

record app =
  database :: db
  clients :: "(string \<times> socket list) list"
  wire :: "(socket \<times> message) list"

text \<open>
  The error classes of the server, and what \<^verbatim>\<open>catch (e)\<close> can also see: an exception of the
  socket library (no \<^verbatim>\<open>status\<close> field) and a primary-key violation raised by the database.
\<close>

datatype exn =
    NotFoundError string
  | ValidationError string
  | SocketError
  | ConstraintError

fun exn_status :: "exn \<Rightarrow> nat" where
  "exn_status (NotFoundError m) = 404"
| "exn_status (ValidationError m) = 400"
| "exn_status SocketError = 500"
| "exn_status ConstraintError = 500"

fun exn_message :: "exn \<Rightarrow> string" where
  "exn_message (NotFoundError m) = m"
| "exn_message (ValidationError m) = m"
| "exn_message SocketError = ''socket write failed''"
| "exn_message ConstraintError = ''UNIQUE constraint failed: tasks.id''"


datatype body = ErrorBody string | TaskBody "task option" | TaskList "task list" | NoBody

record response =
  status :: nat
  json :: body

definition error_response :: "exn \<Rightarrow> response" where
  "error_response e = \<lparr>status = exn_status e, json = ErrorBody (exn_message e)\<rparr>"

section \<open>Broadcast of the unified server\<close>

text \<open>
  \<^verbatim>\<open>for (const ws of sockets) if (ws.readyState === 1) ws.send(msg)\<close>. The result says whether
  a \<^verbatim>\<open>send\<close> raised (which ends the loops) and gives the frames written.
\<close>

fun send_each :: "socket list \<Rightarrow> message \<Rightarrow> (socket \<times> message) list \<Rightarrow> bool \<times> (socket \<times> message) list" where
  "send_each [] msg w = (False, w)"
| "send_each (ws # rest) msg w =
     (if readyState ws = 1
      then (if send_throws ws then (True, w) else send_each rest msg (w @ [(ws, msg)]))
      else send_each rest msg w)"

fun broadcast_loop :: "(string \<times> socket list) list \<Rightarrow> string \<Rightarrow> message \<Rightarrow> (socket \<times> message) list
    \<Rightarrow> bool \<times> (socket \<times> message) list" where
  "broadcast_loop [] excludeUserId msg w = (False, w)"
| "broadcast_loop ((uid, sockets) # rest) excludeUserId msg w =
     (if uid = excludeUserId then broadcast_loop rest excludeUserId msg w
      else (case send_each sockets msg w of
              (True, w') \<Rightarrow> (True, w')
            | (False, w') \<Rightarrow> broadcast_loop rest excludeUserId msg w'))"

definition broadcast :: "string \<Rightarrow> string \<Rightarrow> payload \<Rightarrow> string \<Rightarrow> app \<Rightarrow> bool \<times> app" where
  "broadcast excludeUserId event pl ts a =
     (case broadcast_loop (clients a) excludeUserId
             \<lparr>m_type = event, m_payload = pl, m_timestamp = ts\<rparr> (wire a) of
        (thrown, w') \<Rightarrow> (thrown, a\<lparr>wire := w'\<rparr>))"

section \<open>Queries of the task routes\<close>

text \<open>A request field that may be absent; the empty string is falsy as well.\<close>

definition truthy :: "string option \<Rightarrow> bool" where
  "truthy v = (case v of None \<Rightarrow> False | Some s \<Rightarrow> s \<noteq> [])"

definition str_of :: "string option \<Rightarrow> string" where
  "str_of v = (case v of None \<Rightarrow> [] | Some s \<Rightarrow> s)"





text \<open>\<^verbatim>\<open>UPDATE tasks SET position = position + 1 WHERE column_id = ? AND position >= ?\<close>\<close>

definition shift_up :: "string \<Rightarrow> int \<Rightarrow> task \<Rightarrow> task" where
  "shift_up columnId pos t =
     (if t_column_id t = columnId \<and> t_position t \<ge> pos then t\<lparr>t_position := t_position t + 1\<rparr> else t)"

text \<open>\<^verbatim>\<open>UPDATE tasks SET column_id = ?, position = ?, updated_at = ? WHERE id = ?\<close>\<close>

definition place :: "string \<Rightarrow> string \<Rightarrow> int \<Rightarrow> string \<Rightarrow> task \<Rightarrow> task" where
  "place taskId columnId pos now t =
     (if t_id t = taskId then t\<lparr>t_column_id := columnId, t_position := pos, t_updated_at := now\<rparr> else t)"


section \<open>PATCH /api/boards/:boardId/tasks/:taskId/move\<close>



definition respond :: "nat \<Rightarrow> (exn + task option) \<times> app \<Rightarrow> response \<times> app" where
  "respond ok r =
     (case r of
        (Inl e, a) \<Rightarrow> (error_response e, a)
      | (Inr t, a) \<Rightarrow> (\<lparr>status = ok, json = TaskBody t\<rparr>, a))"


section \<open>GET /api/boards/:boardId/tasks\<close>

text \<open>
  \<^verbatim>\<open>ORDER BY position ASC, created_at DESC\<close>: \<open>row_le a b\<close> says that row \<open>a\<close> may stand before
  row \<open>b\<close>. Text columns compare bytewise. Rows are sorted by stable insertion, so rows equal
  in both keys keep their table order.
\<close>

definition row_le :: "task \<Rightarrow> task \<Rightarrow> bool" where
  "row_le x y = (t_position x < t_position y \<or> (t_position x = t_position y \<and> t_created_at y \<le> t_created_at x))"

fun insert_row :: "task \<Rightarrow> task list \<Rightarrow> task list" where
  "insert_row x [] = [x]"
| "insert_row x (y # ys) = (if row_le x y then x # y # ys else y # insert_row x ys)"

definition order_rows :: "task list \<Rightarrow> task list" where
  "order_rows xs = foldr insert_row xs []"




section \<open>POST /api/boards/:boardId/tasks\<close>













section \<open>DELETE /api/boards/:boardId/tasks/:taskId\<close>


section \<open>Sequences of requests\<close>




text \<open>
  The consistency of the table: \<^verbatim>\<open>id\<close> is a primary key, and no two rows of one bucket share a
  position.
\<close>

definition bucket_key :: "task \<Rightarrow> string \<times> int" where
  "bucket_key t = (t_column_id t, t_position t)"

definition db_ok :: "db \<Rightarrow> bool" where
  "db_ok d = (distinct (map t_id (tasks d)) \<and> distinct (map bucket_key (tasks d)))"


section \<open>Connection registry\<close>

text \<open>
  Both servers keep \<^verbatim>\<open>clients\<close>, a Map from user id to the Set of the user's sockets, and fill
  it in the same way. A socket object is identified by \<open>sock_id\<close>.
  \<open>add_socket\<close> is \<^verbatim>\<open>if (!clients.has(uid)) clients.set(uid, new Set()); clients.get(uid).add(ws)\<close>
  with \<^verbatim>\<open>uid = ws.userId\<close>; \<open>remove_socket\<close> is the \<^verbatim>\<open>close\<close> handler, which deletes the
  socket from the user's set and the user's entry once the set is empty.
\<close>

definition add_socket :: "socket \<Rightarrow> (string \<times> socket list) list \<Rightarrow> (string \<times> socket list) list" where
  "add_socket ws cl =
     (case map_of cl (userId ws) of
        None \<Rightarrow> cl @ [(userId ws, [ws])]
      | Some socks \<Rightarrow>
          map (\<lambda>(u, ss). if u = userId ws
                          then (u, if sock_id ws \<in> sock_id ` set ss then ss else ss @ [ws])
                          else (u, ss)) cl)"

definition remove_socket :: "socket \<Rightarrow> (string \<times> socket list) list \<Rightarrow> (string \<times> socket list) list" where
  "remove_socket ws cl =
     (case map_of cl (userId ws) of
        None \<Rightarrow> cl
      | Some socks \<Rightarrow>
          (if filter (\<lambda>x. sock_id x \<noteq> sock_id ws) socks = []
           then filter (\<lambda>(u, ss). u \<noteq> userId ws) cl
           else map (\<lambda>(u, ss). if u = userId ws
                                then (u, filter (\<lambda>x. sock_id x \<noteq> sock_id ws) ss)
                                else (u, ss)) cl))"

text \<open>\<^verbatim>\<open>clients.get(userId)\<close>, with the empty list for a user who has no entry.\<close>

definition sockets_of :: "string \<Rightarrow> (string \<times> socket list) list \<Rightarrow> socket list" where
  "sockets_of u cl = (case map_of cl u of None \<Rightarrow> [] | Some socks \<Rightarrow> socks)"

text \<open>
  What the connection handlers keep of the registry: a Map has each key once, and a socket
  stands in the set of the user its \<open>userId\<close> field names.
\<close>

definition registry_ok :: "(string \<times> socket list) list \<Rightarrow> bool" where
  "registry_ok cl =
     (distinct (map fst cl) \<and> list_all (\<lambda>(u, socks). list_all (\<lambda>ws. userId ws = u) socks) cl)"

section \<open>Notification records and frames of the real-time server\<close>

text \<open>
  The payload of a domain event: the fields the templates and the listeners read, and the
  fields that bear the name of a field of a stored notification (\<open>p_id\<close>, \<open>p_userId\<close>,
  \<open>p_type\<close>, \<open>p_readAt\<close>, besides title, body and link), each absent (\<open>None\<close>) or present. \<open>p_assignedBy\<close> is the acting user of an assignment as the event bus
  documents the event (\<^verbatim>\<open>{ taskId, assigneeId, assignedBy }\<close>). \<open>p_json\<close> stands for the text
  the built-in \<^verbatim>\<open>JSON.stringify\<close> gives for the whole payload object.
\<close>

record event_payload =
  p_taskId :: "string option"
  p_taskTitle :: "string option"
  p_assigneeId :: "string option"
  p_assignedBy :: "string option"
  p_assignedByName :: "string option"
  p_completedByName :: "string option"
  p_watcherIds :: "string list option"
  p_authorId :: "string option"
  p_authorName :: "string option"
  p_commentId :: "string option"
  p_subscriberIds :: "string list option"
  p_dueIn :: "string option"
  p_mentionedUserId :: "string option"
  p_mentionedByName :: "string option"
  p_context :: "string option"
  p_link :: "string option"
  p_addedByName :: "string option"
  p_title :: "string option"
  p_body :: "string option"
  p_id :: "string option"
  p_userId :: "string option"
  p_type :: "string option"
  p_readAt :: "nat option"
  p_json :: string

text \<open>
  What a spread \<^verbatim>\<open>...content\<close> copies into a record besides the fields a notification names: nothing
  from the object literal of a template, the characters of a string (under the keys
  \<^verbatim>\<open>0\<close>, \<^verbatim>\<open>1\<close>, ...), every property of a payload.
\<close>

datatype others = Nothing | Characters string | Properties event_payload

text \<open>
  A stored notification. \<open>n_title\<close>, \<open>n_body\<close> and \<open>n_link\<close> are absent (\<open>None\<close>) when the content
  spread into the record had no such property. \<open>n_createdAt\<close> and \<open>n_readAt\<close> are the instants
  (in milliseconds) that the stored ISO strings denote; \<^verbatim>\<open>new Date(iso)\<close> gives the instant back.
\<close>

record notification =
  n_id :: string
  n_userId :: string
  n_type :: string
  n_title :: "string option"
  n_body :: "string option"
  n_link :: "string option"
  n_meta :: event_payload
  n_read :: bool
  n_createdAt :: nat
  n_readAt :: "nat option"
  n_others :: others

datatype frame =
    ConnectionAck string nat
  | NotificationNew notification
  | NotificationRead "string list"
  | NotificationAllRead

text \<open>
  The real-time server: the registry, the frames written to sockets, and the number of lines
  \<^verbatim>\<open>console.error\<close> has printed for failed writes. The frames are those the server sends on
  its own; the replies of \<^verbatim>\<open>_handleMessage\<close> to frames of a client (ping, typing, presence) are
  not modelled.
\<close>

record realtime =
  rt_clients :: "(string \<times> socket list) list"
  rt_wire :: "(socket \<times> frame) list"
  rt_errors :: nat

text \<open>\<^verbatim>\<open>_send\<close>: \<^verbatim>\<open>try { ws.send(JSON.stringify(data)) } catch (err) { console.error(...) }\<close>\<close>

definition rt_send :: "socket \<Rightarrow> frame \<Rightarrow> realtime \<Rightarrow> realtime" where
  "rt_send ws data s =
     (if send_throws ws then s\<lparr>rt_errors := rt_errors s + 1\<rparr>
      else s\<lparr>rt_wire := rt_wire s @ [(ws, data)]\<rparr>)"

text \<open>
  The inner loop of \<^verbatim>\<open>sendToUser\<close> and \<^verbatim>\<open>broadcast\<close>; \<^verbatim>\<open>ws.OPEN\<close> is 1. User ids are strings,
  for which the \<^verbatim>\<open>String(userId)\<close> of \<^verbatim>\<open>sendToUser\<close> is the id itself.
\<close>

fun send_open :: "socket list \<Rightarrow> frame \<Rightarrow> nat \<times> realtime \<Rightarrow> nat \<times> realtime" where
  "send_open [] message (sent, s) = (sent, s)"
| "send_open (ws # rest) message (sent, s) =
     (if readyState ws = 1 then send_open rest message (sent + 1, rt_send ws message s)
      else send_open rest message (sent, s))"

definition sendToUser :: "string \<Rightarrow> frame \<Rightarrow> realtime \<Rightarrow> nat \<times> realtime" where
  "sendToUser uid message s =
     (case map_of (rt_clients s) uid of
        None \<Rightarrow> (0, s)
      | Some sockets \<Rightarrow> send_open sockets message (0, s))"

fun rt_broadcast_loop :: "(string \<times> socket list) list \<Rightarrow> frame \<Rightarrow> string option \<Rightarrow> nat \<times> realtime
    \<Rightarrow> nat \<times> realtime" where
  "rt_broadcast_loop [] message excludeUserId r = r"
| "rt_broadcast_loop ((uid, sockets) # rest) message excludeUserId r =
     (if Some uid = excludeUserId then rt_broadcast_loop rest message excludeUserId r
      else rt_broadcast_loop rest message excludeUserId (send_open sockets message r))"

text \<open>\<^verbatim>\<open>RealtimeServer.broadcast(message, excludeUserId = null)\<close>\<close>

definition rt_broadcast :: "frame \<Rightarrow> string option \<Rightarrow> realtime \<Rightarrow> nat \<times> realtime" where
  "rt_broadcast message excludeUserId s = rt_broadcast_loop (rt_clients s) message excludeUserId (0, s)"

text \<open>The \<^verbatim>\<open>connection\<close> handler (\<open>now\<close> is the server time of the acknowledgement) and the
  \<^verbatim>\<open>close\<close> handler of a socket.\<close>

definition on_connection :: "socket \<Rightarrow> nat \<Rightarrow> realtime \<Rightarrow> realtime" where
  "on_connection ws now s =
     rt_send ws (ConnectionAck (userId ws) now) (s\<lparr>rt_clients := add_socket ws (rt_clients s)\<rparr>)"

definition on_close :: "socket \<Rightarrow> realtime \<Rightarrow> realtime" where
  "on_close ws s = s\<lparr>rt_clients := remove_socket ws (rt_clients s)\<rparr>"

section \<open>Notification service\<close>

text \<open>
  The in-memory store of the service (\<^verbatim>\<open>memoryStore\<close>, \<^verbatim>\<open>nextId\<close>) and the reference to the
  real-time server it was constructed with (\<open>None\<close> for \<^verbatim>\<open>null\<close>).
\<close>

record service =
  memoryStore :: "notification list"
  nextId :: nat
  wsServer :: "realtime option"

text \<open>\<^verbatim>\<open>String(n)\<close> for a counter: the decimal digits.\<close>

fun digits :: "nat \<Rightarrow> nat \<Rightarrow> string" where
  "digits 0 n = []"
| "digits (Suc fuel) n =
     (if n < 10 then [char_of (48 + n)] else digits fuel (n div 10) @ [char_of (48 + n mod 10)])"

definition String :: "nat \<Rightarrow> string" where
  "String n = digits (Suc n) n"

record content =
  ct_title :: string
  ct_body :: string
  ct_link :: string

text \<open>
  Template literals: \<open>shown v\<close> is \<^verbatim>\<open>${v}\<close> (an absent field prints as \<^verbatim>\<open>undefined\<close>), and
  \<open>or_else v d\<close> is \<^verbatim>\<open>v || d\<close>. \<open>dq\<close> is the double quote.
\<close>

definition shown :: "string option \<Rightarrow> string" where
  "shown v = (case v of None \<Rightarrow> ''undefined'' | Some x \<Rightarrow> x)"

definition or_else :: "string option \<Rightarrow> string \<Rightarrow> string" where
  "or_else v d = (if truthy v then str_of v else d)"

definition dq :: string where
  "dq = [CHR 0x22]"

text \<open>
  The own properties of the object literal \<^verbatim>\<open>templates\<close>: one function for each of the eight
  notification types.
\<close>

definition templates :: "string \<Rightarrow> (event_payload \<Rightarrow> content) option" where
  "templates ty =
    (if ty = ''task:assigned'' then Some (\<lambda>p. \<lparr>ct_title = ''New task assigned'',
        ct_body = ''You were assigned '' @ dq @ shown (p_taskTitle p) @ dq @ '' by ''
                    @ or_else (p_assignedByName p) ''someone'' @ ''.'',
        ct_link = ''/tasks/'' @ shown (p_taskId p)\<rparr>)
     else if ty = ''task:completed'' then Some (\<lambda>p. \<lparr>ct_title = ''Task completed'',
        ct_body = dq @ shown (p_taskTitle p) @ dq @ '' was marked complete by ''
                    @ or_else (p_completedByName p) ''someone'' @ ''.'',
        ct_link = ''/tasks/'' @ shown (p_taskId p)\<rparr>)
     else if ty = ''task:commented'' then Some (\<lambda>p. \<lparr>ct_title = ''New comment'',
        ct_body = or_else (p_authorName p) ''Someone'' @ '' commented on '' @ dq @ shown (p_taskTitle p)
                    @ dq @ ''.'',
        ct_link = ''/tasks/'' @ shown (p_taskId p) @ ''#comment-'' @ shown (p_commentId p)\<rparr>)
     else if ty = ''task:due_soon'' then Some (\<lambda>p. \<lparr>ct_title = ''Task due soon'',
        ct_body = dq @ shown (p_taskTitle p) @ dq @ '' is due '' @ or_else (p_dueIn p) ''soon'' @ ''.'',
        ct_link = ''/tasks/'' @ shown (p_taskId p)\<rparr>)
     else if ty = ''task:overdue'' then Some (\<lambda>p. \<lparr>ct_title = ''Task overdue'',
        ct_body = dq @ shown (p_taskTitle p) @ dq @ '' is past its due date.'',
        ct_link = ''/tasks/'' @ shown (p_taskId p)\<rparr>)
     else if ty = ''mention'' then Some (\<lambda>p. \<lparr>ct_title = ''You were mentioned'',
        ct_body = or_else (p_mentionedByName p) ''Someone'' @ '' mentioned you in '' @ dq
                    @ or_else (p_context p) ''a task'' @ dq @ ''.'',
        ct_link = or_else (p_link p) ''#''\<rparr>)
     else if ty = ''collaborator:added'' then Some (\<lambda>p. \<lparr>ct_title = ''Added as collaborator'',
        ct_body = ''You were added to '' @ dq @ shown (p_taskTitle p) @ dq @ '' by ''
                    @ or_else (p_addedByName p) ''someone'' @ ''.'',
        ct_link = ''/tasks/'' @ shown (p_taskId p)\<rparr>)
     else if ty = ''system'' then Some (\<lambda>p. \<lparr>ct_title = or_else (p_title p) ''System notification'',
        ct_body = or_else (p_body p) [],
        ct_link = or_else (p_link p) ''#''\<rparr>)
     else None)"

text \<open>
  \<^verbatim>\<open>templates\<close> is a plain object, so \<^verbatim>\<open>templates[type]\<close> also finds what the object inherits
  from \<^verbatim>\<open>Object.prototype\<close>; these are the names of its members.
\<close>

definition Object_prototype :: "string list" where
  "Object_prototype = [''constructor'', ''__defineGetter__'', ''__defineSetter__'', ''hasOwnProperty'',
     ''__lookupGetter__'', ''__lookupSetter__'', ''isPrototypeOf'', ''propertyIsEnumerable'',
     ''toString'', ''valueOf'', ''__proto__'', ''toLocaleString'']"

text \<open>
  What \<^verbatim>\<open>template ? template(payload) : { title: type, body: JSON.stringify(payload), link: '#' }\<close>
  evaluates to: the object literal of a template or of the fallback, a string, or the payload
  object itself.
\<close>

datatype returned = Literal content | Text string | Given event_payload

text \<open>
  \<open>content_of\<close> is that expression with \<^verbatim>\<open>template = templates[type]\<close>; \<open>None\<close> says that it raised a
  \<^verbatim>\<open>TypeError\<close>. An inherited member is called as \<^verbatim>\<open>template(payload)\<close>, with \<^verbatim>\<open>this\<close>
  undefined: \<^verbatim>\<open>constructor\<close> is \<^verbatim>\<open>Object\<close>, which returns the payload object; \<^verbatim>\<open>toString\<close> returns
  \<^verbatim>\<open>[object Undefined]\<close>; \<^verbatim>\<open>__proto__\<close> is the prototype object, which is truthy and not a function,
  so the call raises; every other member converts \<^verbatim>\<open>this\<close> to an object and raises. For any other
  name the lookup gives \<^verbatim>\<open>undefined\<close> and the fallback literal is built.
\<close>

definition content_of :: "string \<Rightarrow> event_payload \<Rightarrow> returned option" where
  "content_of ty p =
     (case templates ty of
        Some template \<Rightarrow> Some (Literal (template p))
      | None \<Rightarrow>
          (if ty = ''constructor'' then Some (Given p)
           else if ty = ''toString'' then Some (Text ''[object Undefined]'')
           else if ty \<in> set Object_prototype then None
           else Some (Literal \<lparr>ct_title = ty, ct_body = p_json p, ct_link = ''#''\<rparr>)))"

text \<open>
  \<^verbatim>\<open>db.create({ userId, type, ...content, meta: payload })\<close>, whose record is
  \<^verbatim>\<open>{ id: String(nextId++), ...data, read: false, createdAt: new Date().toISOString() }\<close>: a
  property of the content that is spread replaces the \<^verbatim>\<open>id\<close>, \<^verbatim>\<open>userId\<close> and \<^verbatim>\<open>type\<close> written
  before it, while \<^verbatim>\<open>meta\<close>, \<^verbatim>\<open>read\<close> and \<^verbatim>\<open>createdAt\<close> are written after it. \<open>now\<close> is the
  clock reading. The counter goes up and the record is pushed to the end of the store.
\<close>

definition db_create :: "string \<Rightarrow> string \<Rightarrow> returned \<Rightarrow> event_payload \<Rightarrow> nat \<Rightarrow> service
    \<Rightarrow> notification \<times> service" where
  "db_create uid ty c meta now s =
     (let record =
        (case c of
           Literal l \<Rightarrow>
             \<lparr>n_id = String (nextId s), n_userId = uid, n_type = ty, n_title = Some (ct_title l),
              n_body = Some (ct_body l), n_link = Some (ct_link l), n_meta = meta, n_read = False,
              n_createdAt = now, n_readAt = None, n_others = Nothing\<rparr>
         | Text t \<Rightarrow>
             \<lparr>n_id = String (nextId s), n_userId = uid, n_type = ty, n_title = None,
              n_body = None, n_link = None, n_meta = meta, n_read = False,
              n_createdAt = now, n_readAt = None, n_others = Characters t\<rparr>
         | Given q \<Rightarrow>
             \<lparr>n_id = (case p_id q of None \<Rightarrow> String (nextId s) | Some i \<Rightarrow> i),
              n_userId = (case p_userId q of None \<Rightarrow> uid | Some u \<Rightarrow> u),
              n_type = (case p_type q of None \<Rightarrow> ty | Some t \<Rightarrow> t),
              n_title = p_title q, n_body = p_body q, n_link = p_link q, n_meta = meta, n_read = False,
              n_createdAt = now, n_readAt = p_readAt q, n_others = Properties q\<rparr>)
      in (record, s\<lparr>memoryStore := memoryStore s @ [record], nextId := nextId s + 1\<rparr>))"

text \<open>\<^verbatim>\<open>this.wsServer.sendToUser(...)\<close> behind \<^verbatim>\<open>if (this.wsServer)\<close>; the count is dropped.\<close>

definition push :: "string \<Rightarrow> frame \<Rightarrow> service \<Rightarrow> service" where
  "push uid message s =
     (case wsServer s of
        None \<Rightarrow> s
      | Some rt \<Rightarrow> s\<lparr>wsServer := Some (snd (sendToUser uid message rt))\<rparr>)"

text \<open>
  \<^verbatim>\<open>NotificationService.notify(userId, type, payload)\<close>. \<open>None\<close> is the promise rejected with the
  \<^verbatim>\<open>TypeError\<close> of the first statement, before anything was stored or sent.
\<close>

definition notify :: "string \<Rightarrow> string \<Rightarrow> event_payload \<Rightarrow> nat \<Rightarrow> service
    \<Rightarrow> (notification \<times> service) option" where
  "notify uid ty p now s =
     (case content_of ty p of
        None \<Rightarrow> None
      | Some c \<Rightarrow>
          (let (notification, s1) = db_create uid ty c p now s
           in Some (notification, push uid (NotificationNew notification) s1)))"






text \<open>
  \<^verbatim>\<open>db.markRead(ids, userId)\<close>: the \<^verbatim>\<open>forEach\<close> over the store, from index \<open>i\<close> on; \<open>clock i\<close> is
  the clock reading while the record at index \<open>i\<close> is visited.
\<close>

fun mark_each :: "string list \<Rightarrow> string \<Rightarrow> (nat \<Rightarrow> nat) \<Rightarrow> nat \<Rightarrow> notification list \<Rightarrow> nat
    \<Rightarrow> nat \<times> notification list" where
  "mark_each ids uid clock i [] count = (count, [])"
| "mark_each ids uid clock i (n # ns) count =
     (if n_id n \<in> set ids \<and> n_userId n = uid \<and> \<not> n_read n
      then (case mark_each ids uid clock (i + 1) ns (count + 1) of
              (c, ns') \<Rightarrow> (c, n\<lparr>n_read := True, n_readAt := Some (clock i)\<rparr> # ns'))
      else (case mark_each ids uid clock (i + 1) ns count of
              (c, ns') \<Rightarrow> (c, n # ns')))"

definition db_markRead :: "string list \<Rightarrow> string \<Rightarrow> (nat \<Rightarrow> nat) \<Rightarrow> service \<Rightarrow> nat \<times> service" where
  "db_markRead ids uid clock s =
     (case mark_each ids uid clock 0 (memoryStore s) 0 of
        (count, ns) \<Rightarrow> (count, s\<lparr>memoryStore := ns\<rparr>))"

text \<open>\<^verbatim>\<open>NotificationService.markRead(userId, ids)\<close>\<close>

definition markRead :: "string \<Rightarrow> string list \<Rightarrow> (nat \<Rightarrow> nat) \<Rightarrow> service \<Rightarrow> nat \<times> service" where
  "markRead uid ids clock s =
     (case db_markRead ids uid clock s of
        (count, s1) \<Rightarrow> (count, push uid (NotificationRead ids) s1))"

section \<open>Event bus and the listeners of the notification service\<close>

text \<open>
  A listener drops the promise \<^verbatim>\<open>this.notify\<close> returns: \<open>settled r s\<close> is the service after a call
  that gave \<open>r\<close> on the service \<open>s\<close>, which a rejected call left as it was.
\<close>

definition settled :: "(notification \<times> service) option \<Rightarrow> service \<Rightarrow> service" where
  "settled r s = (case r of None \<Rightarrow> s | Some (n, s1) \<Rightarrow> s1)"

text \<open>
  A listener calls \<^verbatim>\<open>this.notify\<close> once per recipient. Each call creates its record at once
  (nothing is awaited before \<^verbatim>\<open>db.create\<close> has pushed it) and pushes to the sockets in a later
  microtask; the records and the frames come out in the order of the calls, so the calls are
  modelled one after the other. \<open>clock i\<close> is the clock reading of the call for the
  recipient at index \<open>i\<close>.
\<close>

fun notify_each :: "string list \<Rightarrow> string \<Rightarrow> event_payload \<Rightarrow> (nat \<Rightarrow> nat) \<Rightarrow> nat \<Rightarrow> service \<Rightarrow> service" where
  "notify_each [] ty p clock i s = s"
| "notify_each (uid # rest) ty p clock i s =
     notify_each rest ty p clock (i + 1) (settled (notify uid ty p (clock i) s) s)"

fun comment_each :: "string list \<Rightarrow> event_payload \<Rightarrow> (nat \<Rightarrow> nat) \<Rightarrow> nat \<Rightarrow> service \<Rightarrow> service" where
  "comment_each [] p clock i s = s"
| "comment_each (uid # rest) p clock i s =
     comment_each rest p clock (i + 1)
       (if Some uid \<noteq> p_authorId p then settled (notify uid ''task:commented'' p (clock i) s) s else s)"

definition ids_or_empty :: "string list option \<Rightarrow> string list" where
  "ids_or_empty v = (case v of None \<Rightarrow> [] | Some ids \<Rightarrow> ids)"

definition on_task_assigned :: "event_payload \<Rightarrow> (nat \<Rightarrow> nat) \<Rightarrow> service \<Rightarrow> service" where
  "on_task_assigned p clock s =
     (if truthy (p_assigneeId p) then settled (notify (str_of (p_assigneeId p)) ''task:assigned'' p (clock 0) s) s
      else s)"

definition on_task_completed :: "event_payload \<Rightarrow> (nat \<Rightarrow> nat) \<Rightarrow> service \<Rightarrow> service" where
  "on_task_completed p clock s = notify_each (ids_or_empty (p_watcherIds p)) ''task:completed'' p clock 0 s"

definition on_task_commented :: "event_payload \<Rightarrow> (nat \<Rightarrow> nat) \<Rightarrow> service \<Rightarrow> service" where
  "on_task_commented p clock s = comment_each (ids_or_empty (p_subscriberIds p)) p clock 0 s"

definition on_task_due_soon :: "event_payload \<Rightarrow> (nat \<Rightarrow> nat) \<Rightarrow> service \<Rightarrow> service" where
  "on_task_due_soon p clock s =
     (if truthy (p_assigneeId p) then settled (notify (str_of (p_assigneeId p)) ''task:due_soon'' p (clock 0) s) s
      else s)"

definition on_mention :: "event_payload \<Rightarrow> (nat \<Rightarrow> nat) \<Rightarrow> service \<Rightarrow> service" where
  "on_mention p clock s =
     (if truthy (p_mentionedUserId p) then settled (notify (str_of (p_mentionedUserId p)) ''mention'' p (clock 0) s) s
      else s)"

text \<open>\<^verbatim>\<open>_registerEventListeners\<close>: the listener the service registers for each event name.\<close>

definition listeners :: "string \<Rightarrow> event_payload \<Rightarrow> (nat \<Rightarrow> nat) \<Rightarrow> service \<Rightarrow> service" where
  "listeners event p clock s =
     (if event = ''task:assigned'' then on_task_assigned p clock s
      else if event = ''task:completed'' then on_task_completed p clock s
      else if event = ''task:commented'' then on_task_commented p clock s
      else if event = ''task:due_soon'' then on_task_due_soon p clock s
      else if event = ''mention'' then on_mention p clock s
      else s)"

record envelope =
  ev_event :: string
  ev_payload :: event_payload
  ev_timestamp :: nat

text \<open>
  \<^verbatim>\<open>AppEventBus.emit\<close>: the envelope goes to the history, which drops its oldest entry beyond
  \<^verbatim>\<open>_maxHistory = 200\<close>, and the listeners run.
\<close>

definition emit :: "string \<Rightarrow> event_payload \<Rightarrow> nat \<Rightarrow> (nat \<Rightarrow> nat) \<Rightarrow> envelope list \<times> service
    \<Rightarrow> envelope list \<times> service" where
  "emit event p now clock bs =
     (case bs of (history, s) \<Rightarrow>
        let h = history @ [\<lparr>ev_event = event, ev_payload = p, ev_timestamp = now\<rparr>];
            h' = (if length h > 200 then tl h else h)
        in (h', listeners event p clock s))"

section \<open>Client: the notifications hook\<close>

text \<open>
  The state of \<^verbatim>\<open>useNotifications\<close> and what it asks of its environment: a REST fetch of the
  notification list, a new WebSocket, a reconnect timer, closing the socket. The hook reacts
  to events: the effect that runs on mount, \<^verbatim>\<open>refresh\<close>, the answer of a fetch, and the
  \<^verbatim>\<open>onopen\<close>, \<^verbatim>\<open>onmessage\<close>, \<^verbatim>\<open>onclose\<close>, \<^verbatim>\<open>onerror\<close> callbacks of the socket and the firing of
  the reconnect timer. The keep-alive ping and the clean-up on unmount are not modelled.
\<close>

datatype client_action = FetchNotifications | OpenWebSocket | SetTimeout nat | CloseSocket

datatype client_event =
    Mount
  | Refresh
  | FetchOk "notification list option" "int option"
  | FetchFailed
  | WsOpen
  | WsMessage frame
  | WsClose
  | WsError
  | TimerFired

record agent =
  notifications :: "notification list"
  unreadCount :: int
  connected :: bool
  reconnectDelay :: nat

definition WS_RECONNECT_BASE_MS :: nat where
  "WS_RECONNECT_BASE_MS = 1000"

definition WS_RECONNECT_MAX_MS :: nat where
  "WS_RECONNECT_MAX_MS = 30000"

definition initial_agent :: agent where
  "initial_agent = \<lparr>notifications = [], unreadCount = 0, connected = False,
     reconnectDelay = WS_RECONNECT_BASE_MS\<rparr>"

text \<open>\<^verbatim>\<open>connectWs\<close>: \<^verbatim>\<open>if (!token) return;\<close> and otherwise a new socket.\<close>

definition connectWs :: "string option \<Rightarrow> client_action list" where
  "connectWs token = (if truthy token then [OpenWebSocket] else [])"

fun onmessage :: "frame \<Rightarrow> agent \<Rightarrow> agent" where
  "onmessage (NotificationNew n) s =
     s\<lparr>notifications := n # notifications s, unreadCount := unreadCount s + 1\<rparr>"
| "onmessage (NotificationRead ids) s =
     s\<lparr>notifications := map (\<lambda>n. if n_id n \<in> set ids then n\<lparr>n_read := True\<rparr> else n) (notifications s),
       unreadCount := max 0 (unreadCount s - int (length ids))\<rparr>"
| "onmessage NotificationAllRead s =
     s\<lparr>notifications := map (\<lambda>n. n\<lparr>n_read := True\<rparr>) (notifications s), unreadCount := 0\<rparr>"
| "onmessage (ConnectionAck uid t) s = s"

fun agent_step :: "string option \<Rightarrow> client_event \<Rightarrow> agent \<Rightarrow> agent \<times> client_action list" where
  "agent_step token Mount s = (s, FetchNotifications # connectWs token)"
| "agent_step token Refresh s = (s, [FetchNotifications])"
| "agent_step token (FetchOk ns uc) s =
     (s\<lparr>notifications := (case ns of None \<Rightarrow> [] | Some l \<Rightarrow> l),
        unreadCount := (case uc of None \<Rightarrow> 0 | Some c \<Rightarrow> c)\<rparr>, [])"
| "agent_step token FetchFailed s = (s, [])"
| "agent_step token WsOpen s = (s\<lparr>connected := True, reconnectDelay := WS_RECONNECT_BASE_MS\<rparr>, [])"
| "agent_step token (WsMessage msg) s = (onmessage msg s, [])"
| "agent_step token WsClose s = (s\<lparr>connected := False\<rparr>, [SetTimeout (reconnectDelay s)])"
| "agent_step token WsError s = (s, [CloseSocket])"
| "agent_step token TimerFired s =
     (s\<lparr>reconnectDelay := min (reconnectDelay s * 2) WS_RECONNECT_MAX_MS\<rparr>, connectWs token)"

text \<open>A run of events, with everything the hook asked of its environment on the way.\<close>

fun agent_run :: "string option \<Rightarrow> client_event list \<Rightarrow> agent \<times> client_action list
    \<Rightarrow> agent \<times> client_action list" where
  "agent_run token [] r = r"
| "agent_run token (e # es) (s, acts) =
     (case agent_step token e s of (s', new) \<Rightarrow> agent_run token es (s', acts @ new))"

text \<open>
  The scenario of the board: user \<open>u1\<close> owns board \<open>b1\<close> with the buckets \<open>Todo\<close> and \<open>Done\<close>;
  \<open>Todo\<close> holds the items A, B, C at positions 0, 1, 2.
\<close>

definition item :: "string \<Rightarrow> string \<Rightarrow> int \<Rightarrow> task" where
  "item i c p = \<lparr>t_id = i, t_column_id = c, t_board_id = ''b1'', t_title = i, t_description = [],
     t_assignee_id = None, t_priority = ''none'', t_labels = [], t_position = p, t_due_date = None,
     t_created_at = ''2024-01-01 00:00:00'', t_updated_at = ''2024-01-01 00:00:00''\<rparr>"

definition todo_db :: db where
  "todo_db = \<lparr>boards = [\<lparr>b_id = ''b1'', b_owner_id = ''u1''\<rparr>],
     columns = [\<lparr>c_id = ''Todo'', c_board_id = ''b1'', c_position = 0\<rparr>,
                \<lparr>c_id = ''Done'', c_board_id = ''b1'', c_position = 1\<rparr>],
     tasks = [item ''A'' ''Todo'' 0, item ''B'' ''Todo'' 1, item ''C'' ''Todo'' 2]\<rparr>"






text \<open>The sockets of a set that take a frame: open, and the write does not raise.\<close>

definition accepted :: "socket list \<Rightarrow> socket list" where
  "accepted socks = filter (\<lambda>ws. readyState ws = 1 \<and> \<not> send_throws ws) socks"

text \<open>
  Two users on the wire: alice with two open sockets, bob with an open and a closed one; and a
  real-time server whose only socket raises on every write.
\<close>

definition sock :: "nat \<Rightarrow> string \<Rightarrow> nat \<Rightarrow> bool \<Rightarrow> socket" where
  "sock i u r t = \<lparr>sock_id = i, userId = u, readyState = r, send_throws = t\<rparr>"

definition two_users :: "(string \<times> socket list) list" where
  "two_users = [(''alice'', [sock 1 ''alice'' 1 False, sock 2 ''alice'' 1 False]),
                (''bob'', [sock 3 ''bob'' 1 False, sock 4 ''bob'' 3 False])]"

definition stale_rt :: realtime where
  "stale_rt = \<lparr>rt_clients = [(''bob'', [sock 5 ''bob'' 1 True])], rt_wire = [], rt_errors = 0\<rparr>"

definition two_users_app :: app where
  "two_users_app = \<lparr>database = todo_db, clients = two_users, wire = []\<rparr>"

definition two_users_rt :: realtime where
  "two_users_rt = \<lparr>rt_clients = two_users, rt_wire = [], rt_errors = 0\<rparr>"

text \<open>
  Three users on the wire, each with one open socket; every write to the socket of bob raises.
\<close>

definition three_users :: "(string \<times> socket list) list" where
  "three_users = [(''alice'', [sock 1 ''alice'' 1 False]),
                  (''bob'', [sock 5 ''bob'' 1 True]),
                  (''carol'', [sock 6 ''carol'' 1 False])]"

definition three_users_app :: app where
  "three_users_app = \<lparr>database = todo_db, clients = three_users, wire = []\<rparr>"

definition three_users_rt :: realtime where
  "three_users_rt = \<lparr>rt_clients = three_users, rt_wire = [], rt_errors = 0\<rparr>"

text \<open>
  A user's socket is accepted by the real-time server the service holds: the \<^verbatim>\<open>connection\<close>
  handler runs on that server.
\<close>

definition user_connects :: "socket \<Rightarrow> nat \<Rightarrow> service \<Rightarrow> service" where
  "user_connects ws now s = s\<lparr>wsServer := map_option (on_connection ws now) (wsServer s)\<rparr>"

text \<open>
  Example data: a payload with no field set, a service with an empty store and a real-time
  server without connections, the payload of an assignment in which user-bob assigns a task to
  themselves, and a store with one unread notification for each of two users.
\<close>

definition no_payload :: event_payload where
  "no_payload = \<lparr>p_taskId = None, p_taskTitle = None, p_assigneeId = None, p_assignedBy = None,
     p_assignedByName = None, p_completedByName = None, p_watcherIds = None, p_authorId = None,
     p_authorName = None, p_commentId = None, p_subscriberIds = None, p_dueIn = None,
     p_mentionedUserId = None, p_mentionedByName = None, p_context = None, p_link = None,
     p_addedByName = None, p_title = None, p_body = None, p_id = None, p_userId = None,
     p_type = None, p_readAt = None, p_json = ''{}''\<rparr>"

definition empty_service :: service where
  "empty_service = \<lparr>memoryStore = [], nextId = 1,
     wsServer = Some \<lparr>rt_clients = [], rt_wire = [], rt_errors = 0\<rparr>\<rparr>"

definition self_assigned :: event_payload where
  "self_assigned = no_payload\<lparr>p_taskId := Some ''task-42'', p_taskTitle := Some ''Write unit tests'',
     p_assigneeId := Some ''user-bob'', p_assignedBy := Some ''user-bob'', p_assignedByName := Some ''Bob''\<rparr>"

definition alert :: "string \<Rightarrow> string \<Rightarrow> notification" where
  "alert i u = \<lparr>n_id = i, n_userId = u, n_type = ''system'', n_title = Some ''System notification'',
     n_body = Some [], n_link = Some ''#'', n_meta = no_payload, n_read = False,
     n_createdAt = 1700000000000, n_readAt = None, n_others = Nothing\<rparr>"

definition two_notes :: service where
  "two_notes = \<lparr>memoryStore = [alert ''1'' ''user-alice'', alert ''2'' ''user-bob''], nextId = 3,
     wsServer = None\<rparr>"

section \<open>Properties of the task routes\<close>

subsection \<open>What a request leaves of the state\<close>


lemma broadcast_clients [simp]: "clients (snd (broadcast u e p ts a)) = clients a"
  by (simp add: broadcast_def split: prod.splits)



lemma respond_snd [simp]: "snd (respond k r) = snd r"
  by (auto simp: respond_def split: prod.splits sum.splits)


lemma moved_id [simp]: "t_id (place taskId columnId pos now (shift_up columnId pos t)) = t_id t"
  by (simp add: place_def shift_up_def)








lemma db_ok_empty: "db_ok \<lparr>boards = bs, columns = cs, tasks = []\<rparr>"
  by (simp add: db_ok_def)








lemma set_insert_row [simp]: "set (insert_row x ys) = insert x (set ys)"
  by (induction ys) auto

lemma set_order_rows [simp]: "set (order_rows xs) = set xs"
  by (induction xs) (simp_all add: order_rows_def)


















subsection \<open>The move request\<close>




lemma moved_board [simp]: "t_board_id (place taskId columnId pos now (shift_up columnId pos t)) = t_board_id t"
  by (simp add: place_def shift_up_def)














section \<open>Properties of the connection registry and of broadcasting\<close>

lemma send_each_wire:
  "snd (send_each socks m w) = w @ snd (send_each socks m []) \<and> fst (send_each socks m w) = fst (send_each socks m [])"
proof (induction socks arbitrary: w)
  case Nil
  show ?case by simp
next
  case (Cons ws rest)
  from Cons [of "w @ [(ws, m)]"] Cons [of "[(ws, m)]"] Cons [of w]
  show ?case by simp
qed

lemma send_each_sent:
  assumes "(x, m') \<in> set (snd (send_each socks m []))"
  shows "x \<in> set socks \<and> m' = m"
  using assms
proof (induction socks)
  case Nil
  then show ?case by simp
next
  case (Cons ws rest)
  then show ?case
    using send_each_wire [of rest m "[(ws, m)]"]
    by (auto split: if_splits)
qed

lemma send_each_all:
  assumes "\<not> fst (send_each socks m [])" and "x \<in> set socks" and "readyState x = 1"
  shows "(x, m) \<in> set (snd (send_each socks m []))"
  using assms
proof (induction socks)
  case Nil
  then show ?case by simp
next
  case (Cons ws rest)
  then show ?case
    using send_each_wire [of rest m "[(ws, m)]"]
    by (auto split: if_splits)
qed

lemma broadcast_loop_wire:
  "snd (broadcast_loop cl ex m w) = w @ snd (broadcast_loop cl ex m [])
   \<and> fst (broadcast_loop cl ex m w) = fst (broadcast_loop cl ex m [])"
proof (induction cl arbitrary: w)
  case Nil
  show ?case by simp
next
  case (Cons e rest)
  obtain u socks where e: "e = (u, socks)" by (cases e)
  show ?case
  proof (cases "u = ex")
    case True
    with e Cons [of w] show ?thesis by simp
  next
    case False
    obtain t d where r: "send_each socks m [] = (t, d)" by (cases "send_each socks m []")
    with send_each_wire [of socks m w] have r': "send_each socks m w = (t, w @ d)"
      by (cases "send_each socks m w") simp
    show ?thesis
    proof (cases t)
      case True
      with e False r r' show ?thesis by simp
    next
      case f: False
      with e False r r' Cons [of "w @ d"] Cons [of d] show ?thesis by simp
    qed
  qed
qed

lemma broadcast_loop_sent:
  assumes "(x, m') \<in> set (snd (broadcast_loop cl ex m []))"
  shows "\<exists>u socks. (u, socks) \<in> set cl \<and> u \<noteq> ex \<and> x \<in> set socks \<and> m' = m"
  using assms
proof (induction cl)
  case Nil
  then show ?case by simp
next
  case (Cons e rest)
  obtain u socks where e: "e = (u, socks)" by (cases e)
  show ?case
  proof (cases "u = ex")
    case True
    with e Cons show ?thesis by auto
  next
    case False
    obtain t d where r: "send_each socks m [] = (t, d)" by (cases "send_each socks m []")
    show ?thesis
    proof (cases t)
      case True
      with e False r Cons.prems have "(x, m') \<in> set d" by simp
      with r send_each_sent [of x m' socks m] have "x \<in> set socks \<and> m' = m" by simp
      with e False show ?thesis by auto
    next
      case f: False
      with e False r Cons.prems have "(x, m') \<in> set (snd (broadcast_loop rest ex m d))" by simp
      with broadcast_loop_wire [of rest ex m d]
      have "(x, m') \<in> set d \<or> (x, m') \<in> set (snd (broadcast_loop rest ex m []))" by auto
      then show ?thesis
      proof
        assume "(x, m') \<in> set d"
        with r send_each_sent [of x m' socks m] have "x \<in> set socks \<and> m' = m" by simp
        with e False show ?thesis by auto
      next
        assume "(x, m') \<in> set (snd (broadcast_loop rest ex m []))"
        with Cons.IH show ?thesis by auto
      qed
    qed
  qed
qed

lemma broadcast_loop_all:
  assumes "\<not> fst (broadcast_loop cl ex m [])" and "(u, socks) \<in> set cl" and "u \<noteq> ex"
    and "x \<in> set socks" and "readyState x = 1"
  shows "(x, m) \<in> set (snd (broadcast_loop cl ex m []))"
  using assms
proof (induction cl)
  case Nil
  then show ?case by simp
next
  case (Cons e rest)
  obtain u' socks' where e: "e = (u', socks')" by (cases e)
  show ?case
  proof (cases "u' = ex")
    case True
    with e Cons show ?thesis by auto
  next
    case False
    obtain t d where r: "send_each socks' m [] = (t, d)" by (cases "send_each socks' m []")
    from e False r Cons.prems(1) have t: "\<not> t" by (cases t) simp_all
    with e False r have eq: "broadcast_loop (e # rest) ex m [] = broadcast_loop rest ex m d" by simp
    with Cons.prems(1) broadcast_loop_wire [of rest ex m d]
    have nf: "\<not> fst (broadcast_loop rest ex m [])" by simp
    from eq broadcast_loop_wire [of rest ex m d]
    have w: "snd (broadcast_loop (e # rest) ex m []) = d @ snd (broadcast_loop rest ex m [])" by simp
    from Cons.prems(2) e have "(u, socks) = (u', socks') \<or> (u, socks) \<in> set rest" by auto
    then show ?thesis
    proof
      assume "(u, socks) = (u', socks')"
      with r t send_each_all [of socks' m x] Cons.prems(4,5) have "(x, m) \<in> set d" by simp
      with w show ?thesis by simp
    next
      assume "(u, socks) \<in> set rest"
      with Cons.IH [OF nf _ Cons.prems(3,4,5)] w show ?thesis by simp
    qed
  qed
qed

lemma registry_entry:
  assumes "registry_ok cl"
  shows "x \<in> set (sockets_of u cl) \<longleftrightarrow> (\<exists>socks. (u, socks) \<in> set cl \<and> x \<in> set socks)"
proof -
  from assms have d: "distinct (map fst cl)" by (simp add: registry_ok_def)
  show ?thesis
  proof (cases "map_of cl u")
    case None
    then have "\<And>socks. (u, socks) \<notin> set cl"
      by (metis map_of_eq_None_iff image_eqI fst_conv)
    with None show ?thesis by (simp add: sockets_of_def)
  next
    case (Some socks)
    with d have "\<And>s. (u, s) \<in> set cl \<longleftrightarrow> s = socks"
      by (metis map_of_SomeD map_of_is_SomeI option.inject)
    with Some show ?thesis by (simp add: sockets_of_def)
  qed
qed

lemma registry_owner:
  assumes "registry_ok cl" and "(u, socks) \<in> set cl" and "x \<in> set socks"
  shows "userId x = u"
  using assms by (auto simp: registry_ok_def list_all_iff)

lemma send_open_effect:
  "rt_wire (snd (send_open socks m (k, s))) = rt_wire s @ map (\<lambda>ws. (ws, m)) (accepted socks)
   \<and> rt_clients (snd (send_open socks m (k, s))) = rt_clients s
   \<and> fst (send_open socks m (k, s)) = k + length (filter (\<lambda>ws. readyState ws = 1) socks)"
proof (induction socks arbitrary: k s)
  case Nil
  show ?case by (simp add: accepted_def)
next
  case (Cons ws rest)
  from Cons [of "k + 1" "rt_send ws m s"] Cons [of k s]
  show ?case by (simp add: accepted_def rt_send_def)
qed

lemma rt_broadcast_loop_effect:
  "rt_wire (snd (rt_broadcast_loop cl m ex (k, s)))
     = rt_wire s @ concat (map (\<lambda>(u, socks). if Some u = ex then [] else map (\<lambda>ws. (ws, m)) (accepted socks)) cl)
   \<and> rt_clients (snd (rt_broadcast_loop cl m ex (k, s))) = rt_clients s"
proof (induction cl arbitrary: k s)
  case Nil
  show ?case by simp
next
  case (Cons e rest)
  obtain u socks where e: "e = (u, socks)" by (cases e)
  obtain k' s' where r: "send_open socks m (k, s) = (k', s')" by (cases "send_open socks m (k, s)")
  with send_open_effect [of socks m k s]
  have s': "rt_wire s' = rt_wire s @ map (\<lambda>ws. (ws, m)) (accepted socks)" "rt_clients s' = rt_clients s"
    by simp_all
  from e r s' Cons [of k s] Cons [of k' s'] show ?case by simp
qed

lemma sendToUser_effect:
  "rt_wire (snd (sendToUser u m s)) = rt_wire s @ map (\<lambda>ws. (ws, m)) (accepted (sockets_of u (rt_clients s)))
   \<and> rt_clients (snd (sendToUser u m s)) = rt_clients s
   \<and> fst (sendToUser u m s) = length (filter (\<lambda>ws. readyState ws = 1) (sockets_of u (rt_clients s)))"
  using send_open_effect [of _ m 0 s]
  by (simp add: sendToUser_def sockets_of_def accepted_def split: option.splits)

lemma map_of_map_entry:
  "map_of (map (\<lambda>(u, ss). if u = k then (u, g ss) else (u, ss)) cl) k' =
     (if k' = k then map_option g (map_of cl k') else map_of cl k')"
  by (induction cl) auto

lemma registry_okI:
  assumes "distinct (map fst cl)"
    and "\<And>u socks x. (u, socks) \<in> set cl \<Longrightarrow> x \<in> set socks \<Longrightarrow> userId x = u"
  shows "registry_ok cl"
  using assms by (auto simp: registry_ok_def list_all_iff)

lemma add_socket_ok:
  assumes "registry_ok cl"
  shows "registry_ok (add_socket ws cl)"
proof (cases "map_of cl (userId ws)")
  case None
  then have "userId ws \<notin> fst ` set cl" by (simp add: map_of_eq_None_iff)
  with assms None show ?thesis by (simp add: registry_ok_def add_socket_def)
next
  case (Some socks)
  let ?f = "\<lambda>(u, ss). if u = userId ws then (u, if sock_id ws \<in> sock_id ` set ss then ss else ss @ [ws]) else (u, ss)"
  have k: "map fst (map ?f cl) = map fst cl" by (induction cl) auto
  have "registry_ok (map ?f cl)"
  proof (rule registry_okI)
    from assms show "distinct (map fst (map ?f cl))" unfolding k by (simp add: registry_ok_def)
  next
    fix u socks' x assume "(u, socks') \<in> set (map ?f cl)" and x: "x \<in> set socks'"
    then obtain u0 ss where e: "(u0, ss) \<in> set cl" and f: "(u, socks') = ?f (u0, ss)" by auto
    from f x have "u = u0 \<and> (x \<in> set ss \<or> (x = ws \<and> u = userId ws))"
      by (auto split: if_splits)
    with e registry_owner [OF assms] show "userId x = u" by auto
  qed
  with Some show ?thesis by (simp add: add_socket_def)
qed

lemma remove_socket_ok:
  assumes "registry_ok cl"
  shows "registry_ok (remove_socket ws cl)"
proof (cases "map_of cl (userId ws)")
  case None
  with assms show ?thesis by (simp add: remove_socket_def)
next
  case (Some socks)
  let ?f = "\<lambda>(u, ss). if u = userId ws then (u, filter (\<lambda>x. sock_id x \<noteq> sock_id ws) ss) else (u, ss)"
  have k: "map fst (map ?f cl) = map fst cl" by (induction cl) auto
  have m: "registry_ok (map ?f cl)"
  proof (rule registry_okI)
    from assms show "distinct (map fst (map ?f cl))" unfolding k by (simp add: registry_ok_def)
  next
    fix u socks' x assume "(u, socks') \<in> set (map ?f cl)" and x: "x \<in> set socks'"
    then obtain u0 ss where e: "(u0, ss) \<in> set cl" and f: "(u, socks') = ?f (u0, ss)" by auto
    from f x have "u = u0 \<and> x \<in> set ss"
      by (auto split: if_splits)
    with e registry_owner [OF assms] show "userId x = u" by auto
  qed
  have f: "registry_ok (filter (\<lambda>(u, ss). u \<noteq> userId ws) cl)"
  proof (rule registry_okI)
    from assms show "distinct (map fst (filter (\<lambda>(u, ss). u \<noteq> userId ws) cl))"
      by (simp add: registry_ok_def distinct_map_filter)
  next
    fix u socks' x assume "(u, socks') \<in> set (filter (\<lambda>(u, ss). u \<noteq> userId ws) cl)" and "x \<in> set socks'"
    with registry_owner [OF assms] show "userId x = u" by auto
  qed
  from Some m f show ?thesis by (simp add: remove_socket_def)
qed

lemma remove_socket_gone:
  "sock_id ws \<notin> sock_id ` set (sockets_of (userId ws) (remove_socket ws cl))"
proof (cases "map_of cl (userId ws)")
  case None
  then show ?thesis by (simp add: remove_socket_def sockets_of_def)
next
  case (Some socks)
  show ?thesis
  proof (cases "filter (\<lambda>x. sock_id x \<noteq> sock_id ws) socks = []")
    case True
    have "map_of (filter (\<lambda>(u, ss). u \<noteq> userId ws) cl) (userId ws) = None"
      by (auto simp: map_of_eq_None_iff)
    with Some True show ?thesis by (simp add: remove_socket_def sockets_of_def)
  next
    case False
    with Some show ?thesis
      by (auto simp: remove_socket_def sockets_of_def map_of_map_entry)
  qed
qed

text \<open>
  C4 (as the code has it). With a registry as the connection handlers keep it (each user id is
  one key, and a socket stands under its own \<open>userId\<close>), a broadcast that excludes user \<open>ex\<close>
  writes no frame to any socket of \<open>ex\<close>, whichever of the user's sessions it is. The broadcast
  of the unified server, when no \<^verbatim>\<open>send\<close> of it raised, has written the message to every open
  socket of every other registered user; the broadcast of the real-time server has written it
  to every open socket of every other registered user whose write does not raise.
\<close>

theorem broadcast_excludes_user:
  assumes "registry_ok (clients a)" and "registry_ok (rt_clients s)"
  shows "(\<exists>new. wire (snd (broadcast ex ev pl ts a)) = wire a @ new
            \<and> (\<forall>ws\<in>set (sockets_of ex (clients a)). ws \<notin> fst ` set new)
            \<and> (\<not> fst (broadcast ex ev pl ts a) \<longrightarrow>
                  (\<forall>u ws. u \<noteq> ex \<and> ws \<in> set (sockets_of u (clients a)) \<and> readyState ws = 1 \<longrightarrow>
                     (ws, \<lparr>m_type = ev, m_payload = pl, m_timestamp = ts\<rparr>) \<in> set new)))
       \<and> (\<exists>new. rt_wire (snd (rt_broadcast message (Some ex) s)) = rt_wire s @ new
            \<and> (\<forall>ws\<in>set (sockets_of ex (rt_clients s)). ws \<notin> fst ` set new)
            \<and> (\<forall>u ws. u \<noteq> ex \<and> ws \<in> set (sockets_of u (rt_clients s)) \<and> readyState ws = 1
                       \<and> \<not> send_throws ws \<longrightarrow> (ws, message) \<in> set new))"
proof
  let ?m = "\<lparr>m_type = ev, m_payload = pl, m_timestamp = ts\<rparr>"
  let ?new = "snd (broadcast_loop (clients a) ex ?m [])"
  have w: "wire (snd (broadcast ex ev pl ts a)) = wire a @ ?new"
    and t: "fst (broadcast ex ev pl ts a) = fst (broadcast_loop (clients a) ex ?m [])"
    using broadcast_loop_wire [of "clients a" ex ?m "wire a"]
    by (simp_all add: broadcast_def case_prod_beta)
  have ex: "\<forall>ws\<in>set (sockets_of ex (clients a)). ws \<notin> fst ` set ?new"
  proof (intro ballI notI)
    fix ws assume own: "ws \<in> set (sockets_of ex (clients a))" and "ws \<in> fst ` set ?new"
    then obtain m' where "(ws, m') \<in> set ?new" by auto
    from broadcast_loop_sent [OF this] obtain u socks
      where u: "(u, socks) \<in> set (clients a)" "u \<noteq> ex" "ws \<in> set socks" by auto
    from own registry_entry [OF assms(1)] obtain socks' where
      "(ex, socks') \<in> set (clients a)" "ws \<in> set socks'" by auto
    with registry_owner [OF assms(1)] have "userId ws = ex" by simp
    moreover from u registry_owner [OF assms(1)] have "userId ws = u" by simp
    ultimately show False using u(2) by simp
  qed
  have all: "\<not> fst (broadcast ex ev pl ts a) \<longrightarrow>
       (\<forall>u ws. u \<noteq> ex \<and> ws \<in> set (sockets_of u (clients a)) \<and> readyState ws = 1 \<longrightarrow> (ws, ?m) \<in> set ?new)"
  proof (intro impI allI)
    fix u ws
    assume nt: "\<not> fst (broadcast ex ev pl ts a)"
      and h: "u \<noteq> ex \<and> ws \<in> set (sockets_of u (clients a)) \<and> readyState ws = 1"
    with registry_entry [OF assms(1)] obtain socks where "(u, socks) \<in> set (clients a)" "ws \<in> set socks"
      by auto
    with nt t h broadcast_loop_all [of "clients a" ex ?m u socks ws] show "(ws, ?m) \<in> set ?new"
      by simp
  qed
  from w ex all
  show "\<exists>new. wire (snd (broadcast ex ev pl ts a)) = wire a @ new
            \<and> (\<forall>ws\<in>set (sockets_of ex (clients a)). ws \<notin> fst ` set new)
            \<and> (\<not> fst (broadcast ex ev pl ts a) \<longrightarrow>
                  (\<forall>u ws. u \<noteq> ex \<and> ws \<in> set (sockets_of u (clients a)) \<and> readyState ws = 1 \<longrightarrow>
                     (ws, ?m) \<in> set new))"
    by blast
next
  let ?cl = "rt_clients s"
  define new where "new = concat (map (\<lambda>(u, socks). if Some u = Some ex then []
                                     else map (\<lambda>ws. (ws, message)) (accepted socks)) ?cl)"
  have w: "rt_wire (snd (rt_broadcast message (Some ex) s)) = rt_wire s @ new"
    using rt_broadcast_loop_effect [of ?cl message "Some ex" 0 s] by (simp add: rt_broadcast_def new_def)
  have mem: "\<And>x m'. (x, m') \<in> set new \<longleftrightarrow>
      (\<exists>u socks. (u, socks) \<in> set ?cl \<and> u \<noteq> ex \<and> x \<in> set (accepted socks) \<and> m' = message)"
    unfolding new_def by (auto split: if_splits)
  have ex: "\<forall>ws\<in>set (sockets_of ex ?cl). ws \<notin> fst ` set new"
  proof (intro ballI notI)
    fix ws assume own: "ws \<in> set (sockets_of ex ?cl)" and "ws \<in> fst ` set new"
    then obtain m' where "(ws, m') \<in> set new" by auto
    with mem obtain u socks
      where u: "(u, socks) \<in> set ?cl" "u \<noteq> ex" "ws \<in> set (accepted socks)" by blast
    then have in_s: "ws \<in> set socks" by (simp add: accepted_def)
    from own registry_entry [OF assms(2)] obtain socks' where
      "(ex, socks') \<in> set ?cl" "ws \<in> set socks'" by auto
    with registry_owner [OF assms(2)] have "userId ws = ex" by simp
    moreover from u in_s registry_owner [OF assms(2)] have "userId ws = u" by simp
    ultimately show False using u(2) by simp
  qed
  have all: "\<forall>u ws. u \<noteq> ex \<and> ws \<in> set (sockets_of u ?cl) \<and> readyState ws = 1 \<and> \<not> send_throws ws
               \<longrightarrow> (ws, message) \<in> set new"
  proof (intro impI allI)
    fix u ws
    assume h: "u \<noteq> ex \<and> ws \<in> set (sockets_of u ?cl) \<and> readyState ws = 1 \<and> \<not> send_throws ws"
    with registry_entry [OF assms(2)] obtain socks where "(u, socks) \<in> set ?cl" "ws \<in> set socks"
      by auto
    moreover with h have "ws \<in> set (accepted socks)" by (simp add: accepted_def)
    ultimately show "(ws, message) \<in> set new" using h mem by blast
  qed
  from w ex all
  show "\<exists>new. rt_wire (snd (rt_broadcast message (Some ex) s)) = rt_wire s @ new
            \<and> (\<forall>ws\<in>set (sockets_of ex (rt_clients s)). ws \<notin> fst ` set new)
            \<and> (\<forall>u ws. u \<noteq> ex \<and> ws \<in> set (sockets_of u (rt_clients s)) \<and> readyState ws = 1
                       \<and> \<not> send_throws ws \<longrightarrow> (ws, message) \<in> set new)"
    by blast
qed

theorem broadcast_excludes_user_witness:
  "registry_ok (clients two_users_app) \<and> registry_ok (rt_clients two_users_rt)
   \<and> sock 2 ''alice'' 1 False \<notin> fst ` set (wire (snd (broadcast ''alice'' ''task:moved'' (TaskPayload None) ''t'' two_users_app)))
   \<and> (sock 3 ''bob'' 1 False, \<lparr>m_type = ''task:moved'', m_payload = TaskPayload None, m_timestamp = ''t''\<rparr>)
        \<in> set (wire (snd (broadcast ''alice'' ''task:moved'' (TaskPayload None) ''t'' two_users_app)))
   \<and> sock 2 ''alice'' 1 False \<notin> fst ` set (rt_wire (snd (rt_broadcast NotificationAllRead (Some ''alice'') two_users_rt)))
   \<and> (sock 3 ''bob'' 1 False, NotificationAllRead)
        \<in> set (rt_wire (snd (rt_broadcast NotificationAllRead (Some ''alice'') two_users_rt)))"
proof -
  have ok1: "registry_ok (clients two_users_app)" and ok2: "registry_ok (rt_clients two_users_rt)"
    by (simp_all add: registry_ok_def two_users_app_def two_users_rt_def two_users_def sock_def)
  have a: "sock 2 ''alice'' 1 False \<in> set (sockets_of ''alice'' (clients two_users_app))"
    and a': "sock 2 ''alice'' 1 False \<in> set (sockets_of ''alice'' (rt_clients two_users_rt))"
    and b: "''bob'' \<noteq> ''alice'' \<and> sock 3 ''bob'' 1 False \<in> set (sockets_of ''bob'' (clients two_users_app))
             \<and> readyState (sock 3 ''bob'' 1 False) = 1"
    and b': "''bob'' \<noteq> ''alice'' \<and> sock 3 ''bob'' 1 False \<in> set (sockets_of ''bob'' (rt_clients two_users_rt))
             \<and> readyState (sock 3 ''bob'' 1 False) = 1 \<and> \<not> send_throws (sock 3 ''bob'' 1 False)"
    by (simp_all add: sockets_of_def two_users_app_def two_users_rt_def two_users_def sock_def)
  have nt: "\<not> fst (broadcast ''alice'' ''task:moved'' (TaskPayload None) ''t'' two_users_app)"
    by (simp add: broadcast_def two_users_app_def two_users_def sock_def)
  have w0: "wire two_users_app = []" "rt_wire two_users_rt = []"
    by (simp_all add: two_users_app_def two_users_rt_def)
  note t = broadcast_excludes_user [OF ok1 ok2, of "''alice''" "''task:moved''" "TaskPayload None" "''t''"
      NotificationAllRead]
  from t [THEN conjunct1] obtain new where
    n: "wire (snd (broadcast ''alice'' ''task:moved'' (TaskPayload None) ''t'' two_users_app)) = wire two_users_app @ new"
       "\<forall>ws\<in>set (sockets_of ''alice'' (clients two_users_app)). ws \<notin> fst ` set new"
       "\<not> fst (broadcast ''alice'' ''task:moved'' (TaskPayload None) ''t'' two_users_app) \<longrightarrow>
          (\<forall>u ws. u \<noteq> ''alice'' \<and> ws \<in> set (sockets_of u (clients two_users_app)) \<and> readyState ws = 1 \<longrightarrow>
             (ws, \<lparr>m_type = ''task:moved'', m_payload = TaskPayload None, m_timestamp = ''t''\<rparr>) \<in> set new)"
    by (elim exE conjE)
  from t [THEN conjunct2] obtain new' where
    n': "rt_wire (snd (rt_broadcast NotificationAllRead (Some ''alice'') two_users_rt)) = rt_wire two_users_rt @ new'"
       "\<forall>ws\<in>set (sockets_of ''alice'' (rt_clients two_users_rt)). ws \<notin> fst ` set new'"
       "\<forall>u ws. u \<noteq> ''alice'' \<and> ws \<in> set (sockets_of u (rt_clients two_users_rt)) \<and> readyState ws = 1
              \<and> \<not> send_throws ws \<longrightarrow> (ws, NotificationAllRead) \<in> set new'"
    by (elim exE conjE)
  from n(1) n'(1) w0 have e: "new = wire (snd (broadcast ''alice'' ''task:moved'' (TaskPayload None) ''t'' two_users_app))"
    "new' = rt_wire (snd (rt_broadcast NotificationAllRead (Some ''alice'') two_users_rt))"
    by simp_all
  from n(2) a have 1: "sock 2 ''alice'' 1 False \<notin> fst ` set new" by (rule bspec)
  from n(3) nt b have 2: "(sock 3 ''bob'' 1 False, \<lparr>m_type = ''task:moved'', m_payload = TaskPayload None, m_timestamp = ''t''\<rparr>) \<in> set new"
    by (elim impE allE) assumption+
  from n'(2) a' have 3: "sock 2 ''alice'' 1 False \<notin> fst ` set new'" by (rule bspec)
  from n'(3) b' have 4: "(sock 3 ''bob'' 1 False, NotificationAllRead) \<in> set new'"
    by (elim impE allE) assumption+
  from ok1 ok2 1 2 3 4 show ?thesis unfolding e by (intro conjI)
qed

text \<open>
  C4 as stated fails: alice is excluded, bob and carol each hold an open socket, and the write
  to the socket of bob raises. The broadcast of the real-time server writes nothing to the
  open socket of bob, and the broadcast of the unified server writes nothing at all, so the
  open socket of carol gets no frame either.
\<close>

theorem broadcast_reaches_not_all_counterexample:
  "registry_ok three_users
   \<and> sock 5 ''bob'' 1 True \<in> set (sockets_of ''bob'' (rt_clients three_users_rt))
   \<and> readyState (sock 5 ''bob'' 1 True) = 1
   \<and> rt_wire (snd (rt_broadcast NotificationAllRead (Some ''alice'') three_users_rt))
       = [(sock 6 ''carol'' 1 False, NotificationAllRead)]
   \<and> sock 6 ''carol'' 1 False \<in> set (sockets_of ''carol'' (clients three_users_app))
   \<and> readyState (sock 6 ''carol'' 1 False) = 1
   \<and> wire (snd (broadcast ''alice'' ''task:moved'' (TaskPayload None) ''t'' three_users_app)) = []"
  by (simp add: registry_ok_def three_users_def three_users_rt_def three_users_app_def sock_def
      sockets_of_def rt_broadcast_def rt_send_def broadcast_def)

text \<open>
  C7 (as the code has it). A write that fails is counted by \<^verbatim>\<open>console.error\<close> and dropped;
  no delivery function touches the registry: \<open>rt_send\<close>, \<open>sendToUser\<close> and both broadcasts leave
  \<^verbatim>\<open>clients\<close> as it was. A connection leaves the registry through its \<^verbatim>\<open>close\<close> handler.
\<close>

theorem failed_write_keeps_connection:
  "rt_clients (rt_send ws m s) = rt_clients s
   \<and> rt_clients (snd (sendToUser u m s)) = rt_clients s
   \<and> rt_clients (snd (rt_broadcast m ex s)) = rt_clients s
   \<and> clients (snd (broadcast ex' ev pl ts a)) = clients a
   \<and> (send_throws ws \<longrightarrow> rt_send ws m s = s\<lparr>rt_errors := rt_errors s + 1\<rparr>)
   \<and> sock_id ws \<notin> sock_id ` set (sockets_of (userId ws) (rt_clients (on_close ws s)))"
proof (intro conjI)
  show "rt_clients (rt_send ws m s) = rt_clients s" by (simp add: rt_send_def)
  show "rt_clients (snd (sendToUser u m s)) = rt_clients s" by (simp add: sendToUser_effect)
  show "rt_clients (snd (rt_broadcast m ex s)) = rt_clients s"
    by (simp add: rt_broadcast_def rt_broadcast_loop_effect)
  show "clients (snd (broadcast ex' ev pl ts a)) = clients a" by (rule broadcast_clients)
  show "send_throws ws \<longrightarrow> rt_send ws m s = s\<lparr>rt_errors := rt_errors s + 1\<rparr>" by (simp add: rt_send_def)
  show "sock_id ws \<notin> sock_id ` set (sockets_of (userId ws) (rt_clients (on_close ws s)))"
    by (simp add: on_close_def remove_socket_gone)
qed

theorem failed_write_keeps_connection_witness:
  "send_throws (sock 5 ''bob'' 1 True)
   \<and> rt_send (sock 5 ''bob'' 1 True) NotificationAllRead stale_rt = stale_rt\<lparr>rt_errors := 1\<rparr>
   \<and> sockets_of ''bob'' (rt_clients (on_close (sock 5 ''bob'' 1 True) stale_rt)) = []"
proof -
  have h: "send_throws (sock 5 ''bob'' 1 True)" by (simp add: sock_def)
  from failed_write_keeps_connection [of "sock 5 ''bob'' 1 True" NotificationAllRead stale_rt] h
  have "rt_send (sock 5 ''bob'' 1 True) NotificationAllRead stale_rt = stale_rt\<lparr>rt_errors := rt_errors stale_rt + 1\<rparr>"
    by blast
  moreover have "sockets_of ''bob'' (rt_clients (on_close (sock 5 ''bob'' 1 True) stale_rt)) = []"
    by (simp add: on_close_def remove_socket_def stale_rt_def sock_def sockets_of_def)
  ultimately show ?thesis using h by (simp add: stale_rt_def)
qed

text \<open>
  C7 as stated fails: after \<open>sendToUser\<close> and after a broadcast to a socket whose write raises,
  the frame is not on the wire, the failure is logged, and the socket is still registered.
\<close>

theorem failed_write_counterexample:
  "send_throws (sock 5 ''bob'' 1 True)
   \<and> rt_wire (snd (sendToUser ''bob'' NotificationAllRead stale_rt)) = []
   \<and> rt_errors (snd (sendToUser ''bob'' NotificationAllRead stale_rt)) = 1
   \<and> sock 5 ''bob'' 1 True \<in> set (sockets_of ''bob'' (rt_clients (snd (sendToUser ''bob'' NotificationAllRead stale_rt))))
   \<and> sock 5 ''bob'' 1 True \<in> set (sockets_of ''bob'' (rt_clients (snd (rt_broadcast NotificationAllRead None stale_rt))))"
  by (simp add: sendToUser_def rt_broadcast_def stale_rt_def sock_def rt_send_def sockets_of_def)

section \<open>Properties of the notification service\<close>

lemma push_store [simp]: "memoryStore (push u m s) = memoryStore s" "nextId (push u m s) = nextId s"
  by (simp_all add: push_def split: option.splits)



lemma notify_template:
  assumes "templates ty = Some f"
  shows "\<exists>n. notify u ty p now s = Some (n, push u (NotificationNew n)
             (s\<lparr>memoryStore := memoryStore s @ [n], nextId := nextId s + 1\<rparr>))
           \<and> n_userId n = u \<and> n_type n = ty"
  using assms by (simp add: notify_def content_of_def db_create_def Let_def)

lemma settled_template:
  assumes "templates ty = Some f"
  shows "map n_userId (memoryStore (settled (notify u ty p now s) s)) = map n_userId (memoryStore s) @ [u]"
proof -
  from notify_template [OF assms, of u p now s] obtain n
    where "notify u ty p now s = Some (n, push u (NotificationNew n)
             (s\<lparr>memoryStore := memoryStore s @ [n], nextId := nextId s + 1\<rparr>))"
      and "n_userId n = u"
    by blast
  then show ?thesis by (simp add: settled_def)
qed

lemma own_templates:
  "templates ''task:assigned'' \<noteq> None" "templates ''task:completed'' \<noteq> None"
  "templates ''task:commented'' \<noteq> None"
  by (simp_all add: templates_def)

lemma notify_each_users:
  assumes "templates ty = Some f"
  shows "map n_userId (memoryStore (notify_each ids ty p clock i s)) = map n_userId (memoryStore s) @ ids"
proof (induction ids arbitrary: i s)
  case Nil
  show ?case by simp
next
  case (Cons u rest)
  from Cons [of "i + 1" "settled (notify u ty p (clock i) s) s"] settled_template [OF assms, of u p "clock i" s]
  show ?case by simp
qed

lemma comment_each_users:
  "map n_userId (memoryStore (comment_each ids p clock i s))
     = map n_userId (memoryStore s) @ filter (\<lambda>u. Some u \<noteq> p_authorId p) ids"
proof (induction ids arbitrary: i s)
  case Nil
  show ?case by simp
next
  case (Cons u rest)
  from own_templates(3) obtain f where f: "templates ''task:commented'' = Some f"
    by blast
  from Cons [of "i + 1" "settled (notify u ''task:commented'' p (clock i) s) s"] Cons [of "i + 1" s]
    settled_template [OF f, of u p "clock i" s]
  show ?case by simp
qed

lemma listeners_notify:
  "map n_userId (memoryStore (listeners ''task:assigned'' p clock s))
     = map n_userId (memoryStore s) @ (if truthy (p_assigneeId p) then [str_of (p_assigneeId p)] else [])"
  "map n_userId (memoryStore (listeners ''task:completed'' p clock s))
     = map n_userId (memoryStore s) @ ids_or_empty (p_watcherIds p)"
  "map n_userId (memoryStore (listeners ''task:commented'' p clock s))
     = map n_userId (memoryStore s) @ filter (\<lambda>u. Some u \<noteq> p_authorId p) (ids_or_empty (p_subscriberIds p))"
proof -
  from own_templates obtain f g where f: "templates ''task:assigned'' = Some f"
    and g: "templates ''task:completed'' = Some g"
    by blast
  show "map n_userId (memoryStore (listeners ''task:assigned'' p clock s))
     = map n_userId (memoryStore s) @ (if truthy (p_assigneeId p) then [str_of (p_assigneeId p)] else [])"
    by (simp add: listeners_def on_task_assigned_def settled_template [OF f])
  show "map n_userId (memoryStore (listeners ''task:completed'' p clock s))
     = map n_userId (memoryStore s) @ ids_or_empty (p_watcherIds p)"
    by (simp add: listeners_def on_task_completed_def notify_each_users [OF g])
  show "map n_userId (memoryStore (listeners ''task:commented'' p clock s))
     = map n_userId (memoryStore s) @ filter (\<lambda>u. Some u \<noteq> p_authorId p) (ids_or_empty (p_subscriberIds p))"
    by (simp add: listeners_def on_task_commented_def comment_each_users)
qed

text \<open>
  C3. Self-notification. The listener for comments skips the author of the comment
  (\<open>listeners_notify\<close>, third equation); the listeners for assignments and completions notify
  every recipient they are given, the acting user included. On an assignment that user-bob
  makes to themselves, the service stores a notification for user-bob.
\<close>

theorem self_assignment_is_notified:
  "p_assignedBy self_assigned = Some ''user-bob''
   \<and> map (\<lambda>n. (n_userId n, n_type n))
        (memoryStore (snd (emit ''task:assigned'' self_assigned 1700000000000 (\<lambda>i. 1700000000000)
           ([], empty_service)))) = [(''user-bob'', ''task:assigned'')]"
  by (simp add: emit_def listeners_def on_task_assigned_def self_assigned_def no_payload_def
      empty_service_def truthy_def str_of_def notify_def content_of_def templates_def settled_def
      db_create_def Let_def)


lemma user_connects_store [simp]:
  "memoryStore (user_connects ws now s) = memoryStore s"
  by (simp add: user_connects_def)







lemma mark_each_length: "length (snd (mark_each ids uid clock i0 ns c0)) = length ns"
  by (induction ns arbitrary: i0 c0) (simp_all add: case_prod_beta)

lemma mark_each_count:
  "fst (mark_each ids uid clock i0 ns c0)
     = c0 + length (filter (\<lambda>n. n_id n \<in> set ids \<and> n_userId n = uid \<and> \<not> n_read n) ns)"
  by (induction ns arbitrary: i0 c0) (simp_all add: case_prod_beta)

lemma mark_each_nth:
  assumes "j < length ns"
  shows "snd (mark_each ids uid clock i0 ns c0) ! j =
         (if n_id (ns ! j) \<in> set ids \<and> n_userId (ns ! j) = uid \<and> \<not> n_read (ns ! j)
          then (ns ! j)\<lparr>n_read := True, n_readAt := Some (clock (i0 + j))\<rparr> else ns ! j)"
  using assms
proof (induction ns arbitrary: i0 c0 j)
  case Nil
  then show ?case by simp
next
  case (Cons n ns)
  show ?case
  proof (cases j)
    case 0
    then show ?thesis by (simp add: case_prod_beta)
  next
    case (Suc k)
    with Cons.prems have k: "k < length ns" by simp
    have "snd (mark_each ids uid clock i0 (n # ns) c0) ! Suc k
            = snd (mark_each ids uid clock (i0 + 1) ns
                (if n_id n \<in> set ids \<and> n_userId n = uid \<and> \<not> n_read n then c0 + 1 else c0)) ! k"
      by (simp add: case_prod_beta)
    also note Cons.IH [OF k]
    finally show ?thesis using Suc by simp
  qed
qed

text \<open>
  C10. \<open>markRead uid ids\<close> keeps the store's length and order; the record at each index is
  set to read (with its \<open>readAt\<close>) exactly when its id is in \<open>ids\<close>, its target user is \<open>uid\<close> and
  it was unread, and is otherwise the record that was there, so a record of another user stays
  as it was even when its id is listed; the count returned is the number of records flipped.
\<close>

theorem markRead_touches_own_unread_only:
  "length (memoryStore (snd (markRead uid ids clock s))) = length (memoryStore s)
   \<and> (\<forall>j<length (memoryStore s).
         memoryStore (snd (markRead uid ids clock s)) ! j =
           (if n_id (memoryStore s ! j) \<in> set ids \<and> n_userId (memoryStore s ! j) = uid
               \<and> \<not> n_read (memoryStore s ! j)
            then (memoryStore s ! j)\<lparr>n_read := True, n_readAt := Some (clock j)\<rparr>
            else memoryStore s ! j))
   \<and> fst (markRead uid ids clock s)
       = length (filter (\<lambda>n. n_id n \<in> set ids \<and> n_userId n = uid \<and> \<not> n_read n) (memoryStore s))"
proof -
  obtain c ns where r: "mark_each ids uid clock 0 (memoryStore s) 0 = (c, ns)"
    by (cases "mark_each ids uid clock 0 (memoryStore s) 0")
  then have m: "fst (markRead uid ids clock s) = c" "memoryStore (snd (markRead uid ids clock s)) = ns"
    by (simp_all add: markRead_def db_markRead_def)
  from mark_each_length [of ids uid clock 0 "memoryStore s" 0]
    mark_each_count [of ids uid clock 0 "memoryStore s" 0]
    mark_each_nth [of _ "memoryStore s" ids uid clock 0 0] r
  show ?thesis unfolding m by simp
qed

theorem markRead_touches_own_unread_only_witness:
  "(1::nat) < length (memoryStore two_notes)
   \<and> memoryStore (snd (markRead ''user-alice'' [''1'', ''2''] (\<lambda>i. 1700000009000) two_notes)) ! 1
       = alert ''2'' ''user-bob''
   \<and> fst (markRead ''user-alice'' [''1'', ''2''] (\<lambda>i. 1700000009000) two_notes) = 1"
proof -
  have l: "(1::nat) < length (memoryStore two_notes)"
    by (simp add: two_notes_def)
  note t = markRead_touches_own_unread_only [of "''user-alice''" "[''1'', ''2'']" "\<lambda>i. 1700000009000" two_notes]
  from t have "\<forall>j<length (memoryStore two_notes).
         memoryStore (snd (markRead ''user-alice'' [''1'', ''2''] (\<lambda>i. 1700000009000) two_notes)) ! j =
           (if n_id (memoryStore two_notes ! j) \<in> set [''1'', ''2''] \<and> n_userId (memoryStore two_notes ! j) = ''user-alice''
               \<and> \<not> n_read (memoryStore two_notes ! j)
            then (memoryStore two_notes ! j)\<lparr>n_read := True, n_readAt := Some 1700000009000\<rparr>
            else memoryStore two_notes ! j)"
    by (elim conjE)
  from this [rule_format, OF l]
  have a: "memoryStore (snd (markRead ''user-alice'' [''1'', ''2''] (\<lambda>i. 1700000009000) two_notes)) ! 1
       = alert ''2'' ''user-bob''"
    by (simp add: two_notes_def alert_def)
  from t have "fst (markRead ''user-alice'' [''1'', ''2''] (\<lambda>i. 1700000009000) two_notes)
       = length (filter (\<lambda>n. n_id n \<in> set [''1'', ''2''] \<and> n_userId n = ''user-alice'' \<and> \<not> n_read n) (memoryStore two_notes))"
    by (elim conjE)
  then have b: "fst (markRead ''user-alice'' [''1'', ''2''] (\<lambda>i. 1700000009000) two_notes) = 1"
    by (simp add: two_notes_def alert_def)
  from l a b show ?thesis by (intro conjI)
qed

section \<open>Properties of the notifications hook\<close>

lemma connectWs_no_fetch: "filter (\<lambda>a. a = FetchNotifications) (connectWs token) = []"
  by (simp add: connectWs_def)

lemma agent_step_fetches:
  "length (filter (\<lambda>a. a = FetchNotifications) (snd (agent_step token e s)))
     = (if e = Mount \<or> e = Refresh then 1 else 0)"
  by (cases e) (simp_all add: connectWs_no_fetch)

lemma agent_run_fetches:
  "length (filter (\<lambda>a. a = FetchNotifications) (snd (agent_run token es (s, acts))))
     = length (filter (\<lambda>a. a = FetchNotifications) acts) + length (filter (\<lambda>e. e = Mount \<or> e = Refresh) es)"
proof (induction es arbitrary: s acts)
  case Nil
  show ?case by simp
next
  case (Cons e es)
  obtain s' new where r: "agent_step token e s = (s', new)" by (cases "agent_step token e s")
  with agent_step_fetches [of token e s]
  have n: "length (filter (\<lambda>a. a = FetchNotifications) new) = (if e = Mount \<or> e = Refresh then 1 else 0)"
    by simp
  from r Cons [of s' "acts @ new"] n show ?case by simp
qed

text \<open>
  C5 (as the code has it). Entering Connected (the \<^verbatim>\<open>onopen\<close> callback, at the first connection
  and at every reconnection) sets \<open>connected\<close> and resets the reconnect delay and asks nothing of
  the environment. The fetch of the full list is issued by the effect that runs on mount,
  before the socket is opened, and by \<^verbatim>\<open>refresh\<close>: over any run of events the number of fetches
  issued is the number of mount and refresh events.
\<close>

theorem connected_issues_no_fetch:
  "agent_step token WsOpen s = (s\<lparr>connected := True, reconnectDelay := WS_RECONNECT_BASE_MS\<rparr>, [])
   \<and> snd (agent_step token Mount s) = FetchNotifications # connectWs token
   \<and> length (filter (\<lambda>a. a = FetchNotifications) (snd (agent_run token es (s, acts))))
       = length (filter (\<lambda>a. a = FetchNotifications) acts) + length (filter (\<lambda>e. e = Mount \<or> e = Refresh) es)"
  by (simp add: agent_run_fetches)

text \<open>
  C5 as stated fails: after mount, fetch, connect, disconnect and the reconnect timer, the
  second \<^verbatim>\<open>onopen\<close> issues no fetch; over the whole run one fetch was issued, at mount.
\<close>

theorem reconnect_without_fetch_counterexample:
  "connected (fst (agent_run (Some ''jwt'') [Mount, FetchOk (Some []) (Some 0), WsOpen, WsClose, TimerFired]
       (initial_agent, []))) = False
   \<and> agent_step (Some ''jwt'') WsOpen
        (fst (agent_run (Some ''jwt'') [Mount, FetchOk (Some []) (Some 0), WsOpen, WsClose, TimerFired]
           (initial_agent, [])))
       = (initial_agent\<lparr>connected := True\<rparr>, [])
   \<and> snd (agent_run (Some ''jwt'') [Mount, FetchOk (Some []) (Some 0), WsOpen, WsClose, TimerFired, WsOpen]
          (initial_agent, []))
       = [FetchNotifications, OpenWebSocket, SetTimeout 1000, OpenWebSocket]"
  by (simp add: initial_agent_def connectWs_def truthy_def WS_RECONNECT_BASE_MS_def WS_RECONNECT_MAX_MS_def)

end
